theory Spec2Isabelle
  imports Main
begin

section \<open>The tables of the migration\<close>

text \<open>
  The schema of \<^verbatim>\<open>supabase/migrations/20250712074052-...sql\<close>. A row keeps the columns
  that a constraint, a trigger function or a policy reads or writes; titles, bodies, tags
  and timestamps are never read by them and are left out (so the
  \<^verbatim>\<open>update_updated_at_column\<close> triggers, which only write \<^verbatim>\<open>updated_at\<close>, have no
  effect on a modelled column). The tables \<^verbatim>\<open>notifications\<close> and \<^verbatim>\<open>mentions\<close> have
  no trigger, and no other table refers to them; they are left out. A UUID is an opaque
  identifier, here a natural number.
\<close>

type_synonym uuid = nat

datatype user_role = user | admin

datatype vote_type = upvote | downvote

record profile =
  p_user_id :: uuid
  role :: user_role

record question =
  q_id :: uuid
  q_user_id :: uuid
  q_upvote_count :: int
  q_downvote_count :: int
  answer_count :: int
  has_accepted_answer :: bool

record answer =
  a_id :: uuid
  a_question_id :: uuid
  a_user_id :: uuid
  a_upvote_count :: int
  a_downvote_count :: int
  is_accepted :: bool

text \<open>A vote has a nullable \<^verbatim>\<open>question_id\<close> and a nullable \<^verbatim>\<open>answer_id\<close>.\<close>

record vote =
  v_id :: uuid
  v_user_id :: uuid
  v_question_id :: "uuid option"
  v_answer_id :: "uuid option"
  v_vote_type :: vote_type

record db =
  profiles :: "profile list"
  questions :: "question list"
  answers :: "answer list"
  votes :: "vote list"

text \<open>
  SQLSTATE classes of the errors a statement on these tables can raise: 23514, 23505,
  23503, 42501 (a new row that fails the \<^verbatim>\<open>WITH CHECK\<close> of a policy) and 22003.
\<close>

datatype pg_error = check_violation | unique_violation | foreign_key_violation
  | insufficient_privilege | numeric_value_out_of_range

text \<open>A statement returns the error it raises, or what it computes.\<close>

definition and_then :: "pg_error + 'a \<Rightarrow> ('a \<Rightarrow> pg_error + 'b) \<Rightarrow> pg_error + 'b" where
  "and_then r f = (case r of Inl e \<Rightarrow> Inl e | Inr x \<Rightarrow> f x)"

text \<open>
  A row-level trigger is called with the operation and the rows \<^verbatim>\<open>OLD\<close> and \<^verbatim>\<open>NEW\<close>:
  \<^verbatim>\<open>TG_OP = 'INSERT'\<close> has \<^verbatim>\<open>NEW\<close> only, \<^verbatim>\<open>'DELETE'\<close> has \<^verbatim>\<open>OLD\<close> only,
  \<^verbatim>\<open>'UPDATE'\<close> has both. A trigger \<^verbatim>\<open>FOR EACH ROW\<close> is called once per row, each call
  on the tables the call before it left.
\<close>

datatype 'r tg_op = INSERT 'r | DELETE 'r | UPDATE 'r 'r

fun for_each_row :: "(db \<Rightarrow> 'r \<Rightarrow> pg_error + db) \<Rightarrow> 'r list \<Rightarrow> db \<Rightarrow> pg_error + db" where
  "for_each_row trigger [] d = Inr d"
| "for_each_row trigger (r # rs) d = and_then (trigger d r) (for_each_row trigger rs)"

text \<open>
  An \<^verbatim>\<open>INTEGER\<close> column holds the values from \<open>-2147483648\<close> to \<open>2147483647\<close>; a
  \<^verbatim>\<open>SET\<close> expression whose value is outside raises and nothing wraps. The columns are
  modelled as \<open>int\<close>. As the tables only ever hold values of the type, a counter that is
  out of range after an \<^verbatim>\<open>UPDATE ... SET c = c + 1\<close> or \<^verbatim>\<open>c - 1\<close> is one that this
  statement computed: \<open>integer_range\<close> is applied to the tables such a statement leaves.
\<close>

definition int4 :: "int \<Rightarrow> bool" where
  "int4 n = (- 2147483648 \<le> n \<and> n \<le> 2147483647)"

definition integer_range :: "db \<Rightarrow> pg_error + db" where
  "integer_range d =
     (if list_all (\<lambda>q. int4 (q_upvote_count q) \<and> int4 (q_downvote_count q) \<and>
                        int4 (answer_count q)) (questions d) \<and>
         list_all (\<lambda>a. int4 (a_upvote_count a) \<and> int4 (a_downvote_count a)) (answers d)
      then Inr d else Inl numeric_value_out_of_range)"

section \<open>Sessions and row-level security\<close>

text \<open>
  The migration enables row-level security on every table and does not force it: the role
  that owns the tables (the one that ran the migration), like a role with
  \<^verbatim>\<open>BYPASSRLS\<close>, is exempt, and every other session reaches only the rows its policies
  admit. A policy reads \<^verbatim>\<open>auth.uid()\<close>, the user of the session's token, which is null
  when the session has none. The statements of \<^verbatim>\<open>src/\<close> are sent by the client library
  with the token of the signed-in user, or without a user.

  All conditions below compare \<^verbatim>\<open>auth.uid()\<close> with a column, which is not true when
  \<^verbatim>\<open>auth.uid()\<close> is null; so the clause \<^verbatim>\<open>TO authenticated\<close> of some of the policies,
  which leaves the role \<^verbatim>\<open>anon\<close> without a policy and hence without a row, changes
  nothing. The policies \<^verbatim>\<open>FOR SELECT\<close> of \<^verbatim>\<open>questions\<close>, \<^verbatim>\<open>answers\<close> and
  \<^verbatim>\<open>profiles\<close> are \<^verbatim>\<open>USING (true)\<close>, and the one of \<^verbatim>\<open>votes\<close> is
  \<^verbatim>\<open>USING (true)\<close> for the only role that can write a vote.
\<close>

datatype session = anon | authenticated uuid | table_owner

fun auth_uid :: "session \<Rightarrow> uuid option" where
  "auth_uid anon = None"
| "auth_uid (authenticated u) = Some u"
| "auth_uid table_owner = None"

text \<open>Whether a row with policy condition \<open>c\<close> is admitted in session \<open>s\<close>.\<close>

definition row_security :: "session \<Rightarrow> bool \<Rightarrow> bool" where
  "row_security s c = (s = table_owner \<or> c)"

definition authenticated_users_can_create_questions :: "session \<Rightarrow> question \<Rightarrow> bool" where
  "authenticated_users_can_create_questions s q = (auth_uid s = Some (q_user_id q))"

definition users_can_update_their_own_questions :: "session \<Rightarrow> question \<Rightarrow> bool" where
  "users_can_update_their_own_questions s q = (auth_uid s = Some (q_user_id q))"

definition question_authors_and_admins_can_delete_questions ::
  "session \<Rightarrow> db \<Rightarrow> question \<Rightarrow> bool" where
  "question_authors_and_admins_can_delete_questions s d q =
     (auth_uid s = Some (q_user_id q) \<or>
      list_ex (\<lambda>p. Some (p_user_id p) = auth_uid s \<and> role p = admin) (profiles d))"

definition authenticated_users_can_create_answers :: "session \<Rightarrow> answer \<Rightarrow> bool" where
  "authenticated_users_can_create_answers s a = (auth_uid s = Some (a_user_id a))"

definition users_can_update_their_own_answers :: "session \<Rightarrow> answer \<Rightarrow> bool" where
  "users_can_update_their_own_answers s a = (auth_uid s = Some (a_user_id a))"

definition answer_authors_and_admins_can_delete_answers ::
  "session \<Rightarrow> db \<Rightarrow> answer \<Rightarrow> bool" where
  "answer_authors_and_admins_can_delete_answers s d a =
     (auth_uid s = Some (a_user_id a) \<or>
      list_ex (\<lambda>p. Some (p_user_id p) = auth_uid s \<and> role p = admin) (profiles d))"

definition users_can_create_their_own_votes :: "session \<Rightarrow> vote \<Rightarrow> bool" where
  "users_can_create_their_own_votes s v = (auth_uid s = Some (v_user_id v))"

definition users_can_update_their_own_votes :: "session \<Rightarrow> vote \<Rightarrow> bool" where
  "users_can_update_their_own_votes s v = (auth_uid s = Some (v_user_id v))"

definition users_can_delete_their_own_votes :: "session \<Rightarrow> vote \<Rightarrow> bool" where
  "users_can_delete_their_own_votes s v = (auth_uid s = Some (v_user_id v))"

section \<open>Statements inside the trigger functions\<close>

text \<open>
  Of the functions of the migration only \<^verbatim>\<open>handle_new_user\<close> is declared
  \<^verbatim>\<open>SECURITY DEFINER\<close>. The three functions below are not, so their statements run as
  the session whose statement fired the trigger, and the policies \<^verbatim>\<open>FOR UPDATE\<close> of
  \<^verbatim>\<open>questions\<close> and \<^verbatim>\<open>answers\<close> apply to them: a row the policy does not admit is
  skipped, without an error.

  \<^verbatim>\<open>UPDATE public.questions SET ... WHERE ...\<close>. The only trigger on an update of
  \<^verbatim>\<open>questions\<close> writes \<^verbatim>\<open>updated_at\<close>. No \<^verbatim>\<open>SET\<close> clause of the program writes
  \<^verbatim>\<open>user_id\<close>, so a row that the policy admits is still admitted as written.
\<close>

definition update_questions ::
  "session \<Rightarrow> db \<Rightarrow> (question \<Rightarrow> bool) \<Rightarrow> (question \<Rightarrow> question) \<Rightarrow> db" where
  "update_questions s d P f =
     d\<lparr>questions :=
         map (\<lambda>q. if P q \<and> row_security s (users_can_update_their_own_questions s q)
                  then f q else q) (questions d)\<rparr>"

subsection \<open>\<^verbatim>\<open>update_question_answer_count\<close>\<close>

text \<open>The triggers of this function are declared for an insert and for a delete.\<close>

fun update_question_answer_count :: "session \<Rightarrow> db \<Rightarrow> answer tg_op \<Rightarrow> pg_error + db" where
  "update_question_answer_count s d (INSERT NEW) =
     integer_range (update_questions s d (\<lambda>q. q_id q = a_question_id NEW)
                (\<lambda>q. q\<lparr>answer_count := answer_count q + 1\<rparr>))"
| "update_question_answer_count s d (DELETE OLD) =
     integer_range (update_questions s d (\<lambda>q. q_id q = a_question_id OLD)
                (\<lambda>q. q\<lparr>answer_count := answer_count q - 1\<rparr>))"
| "update_question_answer_count s d (UPDATE OLD NEW) = Inr d"

subsection \<open>\<^verbatim>\<open>update_question_accepted_status\<close>\<close>

text \<open>
  The function of \<^verbatim>\<open>update_accepted_answer_trigger\<close>, \<^verbatim>\<open>AFTER UPDATE ON public.answers
  FOR EACH ROW\<close>. Its first statement is itself an update of \<^verbatim>\<open>answers\<close>, so the trigger
  fires again for every sibling row that statement wrote, after all of them are written.
  Those calls have \<^verbatim>\<open>NEW.is_accepted = false\<close> and write no answer, which is why the
  recursion ends. The function computes no number, so it raises nothing.
\<close>

function update_question_accepted_status :: "session \<Rightarrow> db \<Rightarrow> answer tg_op \<Rightarrow> db" where
  "update_question_accepted_status s d (UPDATE OLD NEW) =
     (if is_accepted OLD \<noteq> is_accepted NEW then
        if is_accepted NEW = True then
          let sibling = (\<lambda>a. (a_question_id a = a_question_id NEW \<and> a_id a \<noteq> a_id NEW) \<and>
                              row_security s (users_can_update_their_own_answers s a));
              written = filter sibling (answers d);
              d1 = d\<lparr>answers := map (\<lambda>a. if sibling a then a\<lparr>is_accepted := False\<rparr> else a)
                                   (answers d)\<rparr>;
              d2 = fold (\<lambda>old acc. update_question_accepted_status s acc
                                      (UPDATE old (old\<lparr>is_accepted := False\<rparr>))) written d1
          in update_questions s d2 (\<lambda>q. q_id q = a_question_id NEW)
               (\<lambda>q. q\<lparr>has_accepted_answer := True\<rparr>)
        else
          if \<not> list_ex (\<lambda>a. a_question_id a = a_question_id NEW \<and> is_accepted a = True
                               \<and> a_id a \<noteq> a_id NEW) (answers d)
          then update_questions s d (\<lambda>q. q_id q = a_question_id NEW)
                 (\<lambda>q. q\<lparr>has_accepted_answer := False\<rparr>)
          else d
      else d)"
| "update_question_accepted_status s d (INSERT NEW) = d"
| "update_question_accepted_status s d (DELETE OLD) = d"
  by pat_completeness auto
termination
  by (relation "measure (\<lambda>(s, d, ev). case ev of UPDATE old new \<Rightarrow> if is_accepted new then 1 else 0
                                         | _ \<Rightarrow> 0)") auto

text \<open>
  \<^verbatim>\<open>UPDATE public.answers SET ... WHERE ...\<close>: all rows that the \<^verbatim>\<open>WHERE\<close> clause selects
  and the policy admits are written, then \<^verbatim>\<open>update_accepted_answer_trigger\<close> fires for
  each of them.
\<close>

definition update_answers ::
  "session \<Rightarrow> db \<Rightarrow> (answer \<Rightarrow> bool) \<Rightarrow> (answer \<Rightarrow> answer) \<Rightarrow> db" where
  "update_answers s d P f =
     (let selected = (\<lambda>a. P a \<and> row_security s (users_can_update_their_own_answers s a));
          written = filter selected (answers d);
          d1 = d\<lparr>answers := map (\<lambda>a. if selected a then f a else a) (answers d)\<rparr>
      in fold (\<lambda>old acc. update_question_accepted_status s acc (UPDATE old (f old))) written d1)"

subsection \<open>\<^verbatim>\<open>update_vote_counts\<close>\<close>

text \<open>
  \<^verbatim>\<open>WHERE id = NEW.question_id\<close> selects no row when \<^verbatim>\<open>NEW.question_id\<close> is null, which
  the comparison with \<open>Some (q_id q)\<close> renders.
\<close>

fun update_vote_counts :: "session \<Rightarrow> db \<Rightarrow> vote tg_op \<Rightarrow> pg_error + db" where
  "update_vote_counts s d (INSERT NEW) =
     (if v_question_id NEW \<noteq> None then
        if v_vote_type NEW = upvote then
          integer_range (update_questions s d (\<lambda>q. Some (q_id q) = v_question_id NEW)
                     (\<lambda>q. q\<lparr>q_upvote_count := q_upvote_count q + 1\<rparr>))
        else
          integer_range (update_questions s d (\<lambda>q. Some (q_id q) = v_question_id NEW)
                     (\<lambda>q. q\<lparr>q_downvote_count := q_downvote_count q + 1\<rparr>))
      else if v_answer_id NEW \<noteq> None then
        if v_vote_type NEW = upvote then
          integer_range (update_answers s d (\<lambda>a. Some (a_id a) = v_answer_id NEW)
                     (\<lambda>a. a\<lparr>a_upvote_count := a_upvote_count a + 1\<rparr>))
        else
          integer_range (update_answers s d (\<lambda>a. Some (a_id a) = v_answer_id NEW)
                     (\<lambda>a. a\<lparr>a_downvote_count := a_downvote_count a + 1\<rparr>))
      else Inr d)"
| "update_vote_counts s d (DELETE OLD) =
     (if v_question_id OLD \<noteq> None then
        if v_vote_type OLD = upvote then
          integer_range (update_questions s d (\<lambda>q. Some (q_id q) = v_question_id OLD)
                     (\<lambda>q. q\<lparr>q_upvote_count := q_upvote_count q - 1\<rparr>))
        else
          integer_range (update_questions s d (\<lambda>q. Some (q_id q) = v_question_id OLD)
                     (\<lambda>q. q\<lparr>q_downvote_count := q_downvote_count q - 1\<rparr>))
      else if v_answer_id OLD \<noteq> None then
        if v_vote_type OLD = upvote then
          integer_range (update_answers s d (\<lambda>a. Some (a_id a) = v_answer_id OLD)
                     (\<lambda>a. a\<lparr>a_upvote_count := a_upvote_count a - 1\<rparr>))
        else
          integer_range (update_answers s d (\<lambda>a. Some (a_id a) = v_answer_id OLD)
                     (\<lambda>a. a\<lparr>a_downvote_count := a_downvote_count a - 1\<rparr>))
      else Inr d)"
| "update_vote_counts s d (UPDATE OLD NEW) =
     (if v_question_id OLD \<noteq> None then
        and_then
          (if v_vote_type OLD = upvote then
             integer_range (update_questions s d (\<lambda>q. Some (q_id q) = v_question_id OLD)
                        (\<lambda>q. q\<lparr>q_upvote_count := q_upvote_count q - 1\<rparr>))
           else
             integer_range (update_questions s d (\<lambda>q. Some (q_id q) = v_question_id OLD)
                        (\<lambda>q. q\<lparr>q_downvote_count := q_downvote_count q - 1\<rparr>)))
          (\<lambda>d1. if v_vote_type NEW = upvote then
                   integer_range (update_questions s d1 (\<lambda>q. Some (q_id q) = v_question_id NEW)
                              (\<lambda>q. q\<lparr>q_upvote_count := q_upvote_count q + 1\<rparr>))
                 else
                   integer_range (update_questions s d1 (\<lambda>q. Some (q_id q) = v_question_id NEW)
                              (\<lambda>q. q\<lparr>q_downvote_count := q_downvote_count q + 1\<rparr>)))
      else if v_answer_id OLD \<noteq> None then
        and_then
          (if v_vote_type OLD = upvote then
             integer_range (update_answers s d (\<lambda>a. Some (a_id a) = v_answer_id OLD)
                        (\<lambda>a. a\<lparr>a_upvote_count := a_upvote_count a - 1\<rparr>))
           else
             integer_range (update_answers s d (\<lambda>a. Some (a_id a) = v_answer_id OLD)
                        (\<lambda>a. a\<lparr>a_downvote_count := a_downvote_count a - 1\<rparr>)))
          (\<lambda>d1. if v_vote_type NEW = upvote then
                   integer_range (update_answers s d1 (\<lambda>a. Some (a_id a) = v_answer_id NEW)
                              (\<lambda>a. a\<lparr>a_upvote_count := a_upvote_count a + 1\<rparr>))
                 else
                   integer_range (update_answers s d1 (\<lambda>a. Some (a_id a) = v_answer_id NEW)
                              (\<lambda>a. a\<lparr>a_downvote_count := a_downvote_count a + 1\<rparr>)))
      else Inr d)"

section \<open>Statements on the tables\<close>

text \<open>
  A statement checks the policy \<^verbatim>\<open>WITH CHECK\<close> and the constraints of the table on the
  rows it is to write, writes them and then fires the \<^verbatim>\<open>AFTER ... FOR EACH ROW\<close>
  triggers once per row written; a statement with a \<^verbatim>\<open>WHERE\<close> clause reaches the rows
  that the clause selects and the policy \<^verbatim>\<open>USING\<close> admits. A statement that raises is
  rolled back as a whole, so it returns the error and no state. The generated
  \<^verbatim>\<open>gen_random_uuid()\<close> of a new row is an argument of the statement.
\<close>

subsection \<open>\<^verbatim>\<open>votes\<close>\<close>

definition vote_target_check :: "vote \<Rightarrow> bool" where
  "vote_target_check v =
     ((v_question_id v \<noteq> None \<and> v_answer_id v = None) \<or>
      (v_question_id v = None \<and> v_answer_id v \<noteq> None))"

text \<open>
  Two rows collide on the primary key, on \<^verbatim>\<open>unique_question_vote\<close> or on
  \<^verbatim>\<open>unique_answer_vote\<close>. A unique constraint never matches a null against a null.
\<close>

definition votes_pkey :: "vote \<Rightarrow> vote \<Rightarrow> bool" where
  "votes_pkey v w = (v_id v = v_id w)"

definition unique_question_vote :: "vote \<Rightarrow> vote \<Rightarrow> bool" where
  "unique_question_vote v w =
     (v_user_id v = v_user_id w \<and> v_question_id v \<noteq> None \<and> v_question_id v = v_question_id w)"

definition unique_answer_vote :: "vote \<Rightarrow> vote \<Rightarrow> bool" where
  "unique_answer_vote v w =
     (v_user_id v = v_user_id w \<and> v_answer_id v \<noteq> None \<and> v_answer_id v = v_answer_id w)"

definition votes_collide :: "vote \<Rightarrow> vote \<Rightarrow> bool" where
  "votes_collide v w = (votes_pkey v w \<or> unique_question_vote v w \<or> unique_answer_vote v w)"

fun votes_unique :: "vote list \<Rightarrow> bool" where
  "votes_unique [] = True"
| "votes_unique (v # vs) = (\<not> list_ex (votes_collide v) vs \<and> votes_unique vs)"

definition votes_fkeys :: "db \<Rightarrow> vote \<Rightarrow> bool" where
  "votes_fkeys d v =
     (list_ex (\<lambda>p. p_user_id p = v_user_id v) (profiles d) \<and>
      (case v_question_id v of None \<Rightarrow> True | Some i \<Rightarrow> list_ex (\<lambda>q. q_id q = i) (questions d)) \<and>
      (case v_answer_id v of None \<Rightarrow> True | Some i \<Rightarrow> list_ex (\<lambda>a. a_id a = i) (answers d)))"

text \<open>\<^verbatim>\<open>INSERT INTO votes\<close> of one row.\<close>

definition insert_votes :: "session \<Rightarrow> db \<Rightarrow> vote \<Rightarrow> pg_error + db" where
  "insert_votes s d NEW =
     (if \<not> row_security s (users_can_create_their_own_votes s NEW) then Inl insufficient_privilege
      else if \<not> vote_target_check NEW then Inl check_violation
      else if list_ex (votes_collide NEW) (votes d) then Inl unique_violation
      else if \<not> votes_fkeys d NEW then Inl foreign_key_violation
      else update_vote_counts s (d\<lparr>votes := votes d @ [NEW]\<rparr>) (INSERT NEW))"

text \<open>\<^verbatim>\<open>DELETE FROM votes WHERE ...\<close>.\<close>

definition delete_votes :: "session \<Rightarrow> db \<Rightarrow> (vote \<Rightarrow> bool) \<Rightarrow> pg_error + db" where
  "delete_votes s d P =
     (let selected = (\<lambda>v. P v \<and> row_security s (users_can_delete_their_own_votes s v));
          deleted = filter selected (votes d);
          d1 = d\<lparr>votes := filter (\<lambda>v. \<not> selected v) (votes d)\<rparr>
      in for_each_row (\<lambda>acc old. update_vote_counts s acc (DELETE old)) deleted d1)"

text \<open>
  \<^verbatim>\<open>UPDATE votes SET ... WHERE ...\<close>; \<open>f\<close> is the \<^verbatim>\<open>SET\<close> clause. The policy has no
  \<^verbatim>\<open>WITH CHECK\<close>, so its \<^verbatim>\<open>USING\<close> is also checked on the rows as written.
\<close>

definition update_votes ::
  "session \<Rightarrow> db \<Rightarrow> (vote \<Rightarrow> bool) \<Rightarrow> (vote \<Rightarrow> vote) \<Rightarrow> pg_error + db" where
  "update_votes s d P f =
     (let selected = (\<lambda>v. P v \<and> row_security s (users_can_update_their_own_votes s v));
          written = filter selected (votes d);
          d1 = d\<lparr>votes := map (\<lambda>v. if selected v then f v else v) (votes d)\<rparr>
      in if \<not> list_all (\<lambda>v. row_security s (users_can_update_their_own_votes s (f v))) written
         then Inl insufficient_privilege
         else if \<not> list_all vote_target_check (map f written) then Inl check_violation
         else if \<not> votes_unique (votes d1) then Inl unique_violation
         else if \<not> list_all (votes_fkeys d) (map f written) then Inl foreign_key_violation
         else for_each_row (\<lambda>acc old. update_vote_counts s acc (UPDATE old (f old))) written d1)"

subsection \<open>\<^verbatim>\<open>answers\<close>\<close>

text \<open>
  \<^verbatim>\<open>INSERT INTO answers (content, question_id, user_id)\<close>, as \<^verbatim>\<open>handleSubmitAnswer\<close>
  issues it: the counters and \<^verbatim>\<open>is_accepted\<close> take their column defaults.
\<close>

definition insert_answers :: "session \<Rightarrow> db \<Rightarrow> uuid \<Rightarrow> uuid \<Rightarrow> uuid \<Rightarrow> pg_error + db" where
  "insert_answers s d new_id qid uid =
     (let NEW = \<lparr>a_id = new_id, a_question_id = qid, a_user_id = uid, a_upvote_count = 0,
                 a_downvote_count = 0, is_accepted = False\<rparr>
      in if \<not> row_security s (authenticated_users_can_create_answers s NEW)
         then Inl insufficient_privilege
         else if list_ex (\<lambda>a. a_id a = new_id) (answers d) then Inl unique_violation
         else if \<not> (list_ex (\<lambda>q. q_id q = qid) (questions d) \<and>
                     list_ex (\<lambda>p. p_user_id p = uid) (profiles d))
         then Inl foreign_key_violation
         else update_question_answer_count s (d\<lparr>answers := answers d @ [NEW]\<rparr>) (INSERT NEW))"

text \<open>
  \<^verbatim>\<open>DELETE FROM answers WHERE ...\<close>. The foreign key \<^verbatim>\<open>votes.answer_id ... ON DELETE
  CASCADE\<close> deletes the votes on the deleted rows; the cascade is an action of the
  constraint and reaches the votes of every user. Then \<^verbatim>\<open>update_answer_count_on_delete\<close>
  fires for the deleted answers and \<^verbatim>\<open>update_vote_counts_trigger\<close> for the deleted votes,
  as the session of the statement. No trigger of \<^verbatim>\<open>update_question_accepted_status\<close> is
  declared for a delete.
\<close>

definition delete_answers :: "session \<Rightarrow> db \<Rightarrow> (answer \<Rightarrow> bool) \<Rightarrow> pg_error + db" where
  "delete_answers s d P =
     (let selected = (\<lambda>a. P a \<and>
                           row_security s (answer_authors_and_admins_can_delete_answers s d a));
          deleted = filter selected (answers d);
          cascade = (\<lambda>v. list_ex (\<lambda>a. v_answer_id v = Some (a_id a)) deleted);
          d1 = d\<lparr>answers := filter (\<lambda>a. \<not> selected a) (answers d),
                 votes := filter (\<lambda>v. \<not> cascade v) (votes d)\<rparr>
      in and_then
           (for_each_row (\<lambda>acc old. update_question_answer_count s acc (DELETE old)) deleted d1)
           (for_each_row (\<lambda>acc old. update_vote_counts s acc (DELETE old))
              (filter cascade (votes d))))"

subsection \<open>\<^verbatim>\<open>questions\<close>\<close>

text \<open>\<^verbatim>\<open>INSERT INTO questions (title, description, tags, user_id)\<close>, as \<^verbatim>\<open>AskQuestion\<close> issues it.\<close>

definition insert_questions :: "session \<Rightarrow> db \<Rightarrow> uuid \<Rightarrow> uuid \<Rightarrow> pg_error + db" where
  "insert_questions s d new_id uid =
     (let NEW = \<lparr>q_id = new_id, q_user_id = uid, q_upvote_count = 0, q_downvote_count = 0,
                 answer_count = 0, has_accepted_answer = False\<rparr>
      in if \<not> row_security s (authenticated_users_can_create_questions s NEW)
         then Inl insufficient_privilege
         else if list_ex (\<lambda>q. q_id q = new_id) (questions d) then Inl unique_violation
         else if \<not> list_ex (\<lambda>p. p_user_id p = uid) (profiles d) then Inl foreign_key_violation
         else Inr (d\<lparr>questions := questions d @ [NEW]\<rparr>))"

text \<open>
  \<^verbatim>\<open>DELETE FROM questions WHERE ...\<close>: the foreign keys \<^verbatim>\<open>answers.question_id\<close> and
  \<^verbatim>\<open>votes.question_id\<close> cascade, and \<^verbatim>\<open>votes.answer_id\<close> cascades from the answers
  deleted so; then the triggers of the deleted answers and votes fire.
\<close>

definition delete_questions :: "session \<Rightarrow> db \<Rightarrow> (question \<Rightarrow> bool) \<Rightarrow> pg_error + db" where
  "delete_questions s d P =
     (let selected = (\<lambda>q. P q \<and>
                           row_security s (question_authors_and_admins_can_delete_questions s d q));
          deleted = filter selected (questions d);
          cascade_a = (\<lambda>a. list_ex (\<lambda>q. a_question_id a = q_id q) deleted);
          cascade_v = (\<lambda>v. list_ex (\<lambda>q. v_question_id v = Some (q_id q)) deleted \<or>
                            list_ex (\<lambda>a. v_answer_id v = Some (a_id a))
                              (filter cascade_a (answers d)));
          d1 = d\<lparr>questions := filter (\<lambda>q. \<not> selected q) (questions d),
                 answers := filter (\<lambda>a. \<not> cascade_a a) (answers d),
                 votes := filter (\<lambda>v. \<not> cascade_v v) (votes d)\<rparr>
      in and_then
           (for_each_row (\<lambda>acc old. update_question_answer_count s acc (DELETE old))
              (filter cascade_a (answers d)) d1)
           (for_each_row (\<lambda>acc old. update_vote_counts s acc (DELETE old))
              (filter cascade_v (votes d))))"

section \<open>The statements a session can issue, and their sequences\<close>

text \<open>
  The row mutations that set the trigger functions off, each issued in a session. They are
  the statements of the handlers of \<^verbatim>\<open>src/\<close>, and the deletes and the updates of
  \<^verbatim>\<open>is_accepted\<close> and \<^verbatim>\<open>vote_type\<close> that the policies open to the same sessions.
\<close>

datatype target = Question uuid | Answer uuid

fun targets :: "target \<Rightarrow> vote \<Rightarrow> bool" where
  "targets (Question i) v = (v_question_id v = Some i)"
| "targets (Answer i) v = (v_answer_id v = Some i)"

datatype stmt =
    INSERT_question uuid uuid
  | DELETE_question uuid
  | INSERT_answer uuid uuid uuid
  | DELETE_answer uuid
  | UPDATE_answer_is_accepted uuid bool
  | INSERT_vote vote
  | DELETE_vote uuid target
  | UPDATE_vote_type uuid vote_type

fun exec :: "session \<Rightarrow> db \<Rightarrow> stmt \<Rightarrow> pg_error + db" where
  "exec s d (INSERT_question new_id uid) = insert_questions s d new_id uid"
| "exec s d (DELETE_question i) = delete_questions s d (\<lambda>q. q_id q = i)"
| "exec s d (INSERT_answer new_id qid uid) = insert_answers s d new_id qid uid"
| "exec s d (DELETE_answer i) = delete_answers s d (\<lambda>a. a_id a = i)"
| "exec s d (UPDATE_answer_is_accepted i b) =
     Inr (update_answers s d (\<lambda>a. a_id a = i) (\<lambda>a. a\<lparr>is_accepted := b\<rparr>))"
| "exec s d (INSERT_vote v) = insert_votes s d v"
| "exec s d (DELETE_vote uid t) = delete_votes s d (\<lambda>v. v_user_id v = uid \<and> targets t v)"
| "exec s d (UPDATE_vote_type i k) =
     update_votes s d (\<lambda>v. v_id v = i) (\<lambda>v. v\<lparr>v_vote_type := k\<rparr>)"

text \<open>A statement that raises leaves the tables as they were.\<close>

definition commit :: "db \<Rightarrow> pg_error + db \<Rightarrow> db" where
  "commit d r = (case r of Inl e \<Rightarrow> d | Inr d' \<Rightarrow> d')"

fun run :: "db \<Rightarrow> (session \<times> stmt) list \<Rightarrow> db" where
  "run d [] = d"
| "run d ((s, st) # ss) = run (commit d (exec s d st)) ss"

definition empty_db :: "profile list \<Rightarrow> db" where
  "empty_db ps = \<lparr>profiles = ps, questions = [], answers = [], votes = []\<rparr>"

section \<open>The handlers of the client\<close>

text \<open>
  What a handler of \<^verbatim>\<open>QuestionDetail.tsx\<close> does: it returns at its guard, or runs to
  its end, or shows the toast of its \<^verbatim>\<open>catch\<close> block. Its statements run in the
  session of the signed-in user \<^verbatim>\<open>user\<close>.
\<close>

datatype outcome = returned | completed | toast_error pg_error


text \<open>
  \<^verbatim>\<open>handleSubmitAnswer()\<close>; \<open>page_id\<close> is the route's \<^verbatim>\<open>id\<close>, \<open>newAnswer\<close> whether
  the trimmed text of the form is not empty.
\<close>

definition handleSubmitAnswer :: "db \<Rightarrow> uuid option \<Rightarrow> uuid \<Rightarrow> bool \<Rightarrow> uuid \<Rightarrow> outcome \<times> db" where
  "handleSubmitAnswer d usr page_id newAnswer new_id =
     (case usr of None \<Rightarrow> (returned, d) | Some u \<Rightarrow>
      if \<not> newAnswer then (returned, d)
      else (case insert_answers (authenticated u) d new_id page_id u of
              Inl e \<Rightarrow> (toast_error e, d)
            | Inr d' \<Rightarrow> (completed, d')))"

text \<open>
  \<^verbatim>\<open>.upsert({user_id, question_id, answer_id, vote_type})\<close> is called without an
  \<^verbatim>\<open>onConflict\<close> option, so it is \<^verbatim>\<open>INSERT ... ON CONFLICT (id) DO UPDATE\<close> on the
  primary key, and the payload has no \<^verbatim>\<open>id\<close>: the row gets a generated one. Only a row
  with that very \<^verbatim>\<open>id\<close> is replaced; a row that collides on another constraint makes
  the insert raise.
\<close>

definition upsert_votes :: "session \<Rightarrow> db \<Rightarrow> vote \<Rightarrow> pg_error + db" where
  "upsert_votes s d NEW =
     (if list_ex (votes_pkey NEW) (votes d) then
        if \<not> row_security s (users_can_create_their_own_votes s NEW)
        then Inl insufficient_privilege
        else if \<not> vote_target_check NEW then Inl check_violation
        else if list_ex (\<lambda>w. votes_pkey NEW w \<and>
                              \<not> row_security s (users_can_update_their_own_votes s w)) (votes d)
        then Inl insufficient_privilege
        else update_votes s d (votes_pkey NEW) (\<lambda>w. NEW)
      else insert_votes s d NEW)"

text \<open>
  \<^verbatim>\<open>handleVote(type, answerId?)\<close>; \<open>usr\<close>, \<open>page_id\<close> (the route's \<^verbatim>\<open>id\<close>),
  \<open>questionVote\<close> and \<open>answerVotes\<close> are the component's state, \<open>new_id\<close> the generated
  identifier of the row to insert.
\<close>

definition handleVote ::
  "db \<Rightarrow> uuid option \<Rightarrow> uuid \<Rightarrow> vote_type option \<Rightarrow> (uuid \<Rightarrow> vote_type option) \<Rightarrow> uuid \<Rightarrow>
   vote_type \<Rightarrow> uuid option \<Rightarrow> outcome \<times> db" where
  "handleVote d usr page_id questionVote answerVotes new_id type answerId =
     (case usr of None \<Rightarrow> (returned, d) | Some u \<Rightarrow>
      (let currentVote = (case answerId of Some a \<Rightarrow> answerVotes a | None \<Rightarrow> questionVote);
           isRemoving = (currentVote = Some type)
       in if isRemoving then
            (case delete_votes (authenticated u) d
                    (\<lambda>v. v_user_id v = u \<and>
                          (case answerId of Some a \<Rightarrow> v_answer_id v = Some a
                                          | None \<Rightarrow> v_question_id v = Some page_id)) of
               Inl e \<Rightarrow> (toast_error e, d)
             | Inr d' \<Rightarrow> (completed, d'))
          else
            (case upsert_votes (authenticated u) d
                    \<lparr>v_id = new_id, v_user_id = u,
                     v_question_id = (case answerId of Some a \<Rightarrow> None | None \<Rightarrow> Some page_id),
                     v_answer_id = answerId, v_vote_type = type\<rparr> of
               Inl e \<Rightarrow> (toast_error e, d)
             | Inr d' \<Rightarrow> (completed, d'))))"

section \<open>Observations\<close>

text \<open>The row a client reads with \<^verbatim>\<open>.eq('id', i).single()\<close>.\<close>

definition question_of :: "db \<Rightarrow> uuid \<Rightarrow> question option" where
  "question_of d i = find (\<lambda>q. q_id q = i) (questions d)"

definition answer_of :: "db \<Rightarrow> uuid \<Rightarrow> answer option" where
  "answer_of d i = find (\<lambda>a. a_id a = i) (answers d)"

text \<open>The live answers of question \<open>i\<close>, and the accepted ones among them.\<close>

definition answers_under :: "db \<Rightarrow> uuid \<Rightarrow> answer list" where
  "answers_under d i = filter (\<lambda>a. a_question_id a = i) (answers d)"

definition accepted_under :: "db \<Rightarrow> uuid \<Rightarrow> answer list" where
  "accepted_under d i = filter (\<lambda>a. a_question_id a = i \<and> is_accepted a) (answers d)"

text \<open>The number of votes of kind \<open>k\<close> on target \<open>t\<close> in a list of vote rows.\<close>

definition tally :: "vote list \<Rightarrow> target \<Rightarrow> vote_type \<Rightarrow> int" where
  "tally vs t k = int (length (filter (\<lambda>v. targets t v \<and> v_vote_type v = k) vs))"

text \<open>The pair \<^verbatim>\<open>(upvote_count, downvote_count)\<close> stored on a target, if the row is there.\<close>

fun counters :: "db \<Rightarrow> target \<Rightarrow> (int \<times> int) option" where
  "counters d (Question i) =
     map_option (\<lambda>q. (q_upvote_count q, q_downvote_count q)) (question_of d i)"
| "counters d (Answer i) =
     map_option (\<lambda>a. (a_upvote_count a, a_downvote_count a)) (answer_of d i)"


text \<open>
  No counter is at a bound of \<^verbatim>\<open>INTEGER\<close>: every counter can be moved by one in either
  direction.
\<close>

definition headroom :: "db \<Rightarrow> bool" where
  "headroom d =
     (list_all (\<lambda>q. int4 (q_upvote_count q - 1) \<and> int4 (q_upvote_count q + 1) \<and>
                     int4 (q_downvote_count q - 1) \<and> int4 (q_downvote_count q + 1) \<and>
                     int4 (answer_count q)) (questions d) \<and>
      list_all (\<lambda>a. int4 (a_upvote_count a - 1) \<and> int4 (a_upvote_count a + 1) \<and>
                     int4 (a_downvote_count a - 1) \<and> int4 (a_downvote_count a + 1)) (answers d))"

section \<open>An example\<close>

text \<open>
  Three profiles, and the vote row a client sends for a target. In \<open>ex_db\<close> user 1 has
  asked question 10; users 2 and 3 and the asker have answered it, each signed in as
  themselves.
\<close>

definition ex_ps :: "profile list" where
  "ex_ps = [\<lparr>p_user_id = 1, role = user\<rparr>, \<lparr>p_user_id = 2, role = user\<rparr>,
            \<lparr>p_user_id = 3, role = admin\<rparr>]"

fun vote_row :: "uuid \<Rightarrow> uuid \<Rightarrow> target \<Rightarrow> vote_type \<Rightarrow> vote" where
  "vote_row i u (Question q) k =
     \<lparr>v_id = i, v_user_id = u, v_question_id = Some q, v_answer_id = None, v_vote_type = k\<rparr>"
| "vote_row i u (Answer a) k =
     \<lparr>v_id = i, v_user_id = u, v_question_id = None, v_answer_id = Some a, v_vote_type = k\<rparr>"

definition ex_stmts :: "(session \<times> stmt) list" where
  "ex_stmts =
     [(authenticated 1, INSERT_question 10 1),
      (authenticated 2, INSERT_answer 20 10 2),
      (authenticated 3, INSERT_answer 21 10 3),
      (authenticated 1, INSERT_answer 22 10 1)]"

definition ex_db :: db where
  "ex_db = run (empty_db ex_ps) ex_stmts"

text \<open>The state before the answers, and two rows of \<open>ex_db\<close>.\<close>

definition ex_asked :: db where
  "ex_asked = run (empty_db ex_ps) [(authenticated 1, INSERT_question 10 1)]"



text \<open>
  \<open>ex_db\<close> after three votes, each cast by the voter's own session: the asker and user 3
  upvote question 10, user 2 downvotes the answer 20 that user 2 wrote.
\<close>

definition ex_voted :: db where
  "ex_voted = run ex_db
     [(authenticated 1, INSERT_vote (vote_row 30 1 (Question 10) upvote)),
      (authenticated 3, INSERT_vote (vote_row 31 3 (Question 10) upvote)),
      (authenticated 2, INSERT_vote (vote_row 32 2 (Answer 20) downvote))]"

section \<open>Lemmas about the statements\<close>

subsection \<open>The trigger of \<^verbatim>\<open>is_accepted\<close>\<close>

declare update_question_accepted_status.simps [simp del]

declare update_vote_counts.simps [simp del]

lemma uq_simps [simp]:
  "profiles (update_questions s d P f) = profiles d"
  "answers (update_questions s d P f) = answers d"
  "votes (update_questions s d P f) = votes d"
  "questions (update_questions s d P f) =
     map (\<lambda>q. if P q \<and> row_security s (users_can_update_their_own_questions s q) then f q else q)
       (questions d)"
  by (simp_all add: update_questions_def)

lemma fold_same: "(\<And>x. x \<in> set xs \<Longrightarrow> f x s = s) \<Longrightarrow> fold f xs s = s"
  by (induction xs) simp_all

lemma trig_same:
  "is_accepted OLD = is_accepted NEW \<Longrightarrow> update_question_accepted_status s d (UPDATE OLD NEW) = d"
  by (simp add: update_question_accepted_status.simps)




lemma update_answers_quiet:
  assumes "\<And>a. is_accepted (f a) = is_accepted a"
  shows "update_answers s d P f =
     d\<lparr>answers := map (\<lambda>a. if P a \<and> row_security s (users_can_update_their_own_answers s a)
                            then f a else a) (answers d)\<rparr>"
  unfolding update_answers_def Let_def
  by (rule fold_same) (simp add: trig_same assms)




subsection \<open>A vote update that keeps kind and target\<close>

lemma integer_range_cases:
  "integer_range d = Inr d \<or> integer_range d = Inl numeric_value_out_of_range"
  by (simp add: integer_range_def)

lemma cancel_step:
  assumes "G (F d) = d"
  shows "and_then (integer_range (F d)) (\<lambda>d1. integer_range (G d1)) = Inr d \<or>
         and_then (integer_range (F d)) (\<lambda>d1. integer_range (G d1)) = Inl numeric_value_out_of_range"
  using integer_range_cases[of "F d"] integer_range_cases[of d]
  by (auto simp: and_then_def assms)

lemma cancel_step_ok:
  assumes "G (F d) = d" "integer_range (F d) = Inr (F d)" "integer_range d = Inr d"
  shows "and_then (integer_range (F d)) (\<lambda>d1. integer_range (G d1)) = Inr d"
  by (simp add: and_then_def assms)

lemma uq_cancel:
  assumes "\<And>q. f (g q) = q" "\<And>q. P (g q) = P q" "\<And>q. q_user_id (g q) = q_user_id q"
  shows "update_questions s (update_questions s d P g) P f = d"
proof -
  have "map (\<lambda>q. if P q \<and> row_security s (users_can_update_their_own_questions s q) then f q else q)
          (map (\<lambda>q. if P q \<and> row_security s (users_can_update_their_own_questions s q) then g q else q)
             (questions d)) = questions d"
    unfolding map_map
    by (rule map_idI) (auto simp: assms users_can_update_their_own_questions_def)
  then show ?thesis by (simp add: update_questions_def)
qed

lemma ua_cancel:
  assumes "\<And>a. f (g a) = a" "\<And>a. P (g a) = P a" "\<And>a. a_user_id (g a) = a_user_id a"
    "\<And>a. is_accepted (f a) = is_accepted a" "\<And>a. is_accepted (g a) = is_accepted a"
  shows "update_answers s (update_answers s d P g) P f = d"
proof -
  have "map (\<lambda>q. if P q \<and> row_security s (users_can_update_their_own_answers s q) then f q else q)
          (map (\<lambda>q. if P q \<and> row_security s (users_can_update_their_own_answers s q) then g q else q)
             (answers d)) = answers d"
    unfolding map_map
    by (rule map_idI) (auto simp: assms users_can_update_their_own_answers_def)
  then show ?thesis by (simp add: update_answers_quiet assms(4,5))
qed

lemma headroom_range: "headroom d \<Longrightarrow> integer_range d = Inr d"
  by (auto simp: headroom_def integer_range_def int4_def list_all_iff)

lemma headroom_uq:
  assumes "headroom d"
    "\<And>q. int4 (q_upvote_count q - 1) \<and> int4 (q_upvote_count q + 1) \<and>
          int4 (q_downvote_count q - 1) \<and> int4 (q_downvote_count q + 1) \<and> int4 (answer_count q)
          \<Longrightarrow> int4 (q_upvote_count (f q)) \<and> int4 (q_downvote_count (f q)) \<and> int4 (answer_count (f q))"
  shows "integer_range (update_questions s d P f) = Inr (update_questions s d P f)"
proof -
  have 1: "list_all (\<lambda>q. int4 (q_upvote_count q) \<and> int4 (q_downvote_count q) \<and> int4 (answer_count q))
          (questions (update_questions s d P f))"
    using assms(1) assms(2) unfolding headroom_def list_all_iff
    by (auto simp: int4_def)
  have 2: "list_all (\<lambda>a. int4 (a_upvote_count a) \<and> int4 (a_downvote_count a))
          (answers (update_questions s d P f))"
    using assms(1) unfolding headroom_def list_all_iff by (auto simp: int4_def)
  show ?thesis unfolding integer_range_def using 1 2 by simp
qed

lemma headroom_ua:
  assumes "headroom d" "\<And>a. is_accepted (f a) = is_accepted a"
    "\<And>a. int4 (a_upvote_count a - 1) \<and> int4 (a_upvote_count a + 1) \<and>
          int4 (a_downvote_count a - 1) \<and> int4 (a_downvote_count a + 1)
          \<Longrightarrow> int4 (a_upvote_count (f a)) \<and> int4 (a_downvote_count (f a))"
  shows "integer_range (update_answers s d P f) = Inr (update_answers s d P f)"
proof -
  have e: "update_answers s d P f =
     d\<lparr>answers := map (\<lambda>a. if P a \<and> row_security s (users_can_update_their_own_answers s a)
                            then f a else a) (answers d)\<rparr>"
    by (rule update_answers_quiet) (rule assms(2))
  have 1: "list_all (\<lambda>q. int4 (q_upvote_count q) \<and> int4 (q_downvote_count q) \<and> int4 (answer_count q))
          (questions (update_answers s d P f))"
    using assms(1) unfolding headroom_def list_all_iff e by (auto simp: int4_def)
  have 2: "list_all (\<lambda>a. int4 (a_upvote_count a) \<and> int4 (a_downvote_count a))
          (answers (update_answers s d P f))"
    using assms(1) assms(3) unfolding headroom_def list_all_iff e by (auto simp: int4_def)
  show ?thesis unfolding integer_range_def using 1 2 by simp
qed

lemma trigger_cancels:
  assumes "v_vote_type NEW = v_vote_type OLD" "v_question_id NEW = v_question_id OLD"
    "v_answer_id NEW = v_answer_id OLD"
  shows "update_vote_counts s d (UPDATE OLD NEW) = Inr d \<or>
         update_vote_counts s d (UPDATE OLD NEW) = Inl numeric_value_out_of_range"
proof -
  have q1: "and_then
      (integer_range (update_questions s d (\<lambda>q. Some (q_id q) = i) (\<lambda>q. q\<lparr>q_upvote_count := q_upvote_count q - 1\<rparr>)))
      (\<lambda>d1. integer_range (update_questions s d1 (\<lambda>q. Some (q_id q) = i) (\<lambda>q. q\<lparr>q_upvote_count := q_upvote_count q + 1\<rparr>)))
      = Inr d \<or>
     and_then
      (integer_range (update_questions s d (\<lambda>q. Some (q_id q) = i) (\<lambda>q. q\<lparr>q_upvote_count := q_upvote_count q - 1\<rparr>)))
      (\<lambda>d1. integer_range (update_questions s d1 (\<lambda>q. Some (q_id q) = i) (\<lambda>q. q\<lparr>q_upvote_count := q_upvote_count q + 1\<rparr>)))
      = Inl numeric_value_out_of_range" for i
    by (rule cancel_step[of "\<lambda>d1. update_questions s d1 (\<lambda>q. Some (q_id q) = i) (\<lambda>q. q\<lparr>q_upvote_count := q_upvote_count q + 1\<rparr>)"
            "\<lambda>d. update_questions s d (\<lambda>q. Some (q_id q) = i) (\<lambda>q. q\<lparr>q_upvote_count := q_upvote_count q - 1\<rparr>)"])
       (simp add: uq_cancel)
  have q2: "and_then
      (integer_range (update_questions s d (\<lambda>q. Some (q_id q) = i) (\<lambda>q. q\<lparr>q_downvote_count := q_downvote_count q - 1\<rparr>)))
      (\<lambda>d1. integer_range (update_questions s d1 (\<lambda>q. Some (q_id q) = i) (\<lambda>q. q\<lparr>q_downvote_count := q_downvote_count q + 1\<rparr>)))
      = Inr d \<or>
     and_then
      (integer_range (update_questions s d (\<lambda>q. Some (q_id q) = i) (\<lambda>q. q\<lparr>q_downvote_count := q_downvote_count q - 1\<rparr>)))
      (\<lambda>d1. integer_range (update_questions s d1 (\<lambda>q. Some (q_id q) = i) (\<lambda>q. q\<lparr>q_downvote_count := q_downvote_count q + 1\<rparr>)))
      = Inl numeric_value_out_of_range" for i
    by (rule cancel_step[of "\<lambda>d1. update_questions s d1 (\<lambda>q. Some (q_id q) = i) (\<lambda>q. q\<lparr>q_downvote_count := q_downvote_count q + 1\<rparr>)"
            "\<lambda>d. update_questions s d (\<lambda>q. Some (q_id q) = i) (\<lambda>q. q\<lparr>q_downvote_count := q_downvote_count q - 1\<rparr>)"])
       (simp add: uq_cancel)
  have a1: "and_then
      (integer_range (update_answers s d (\<lambda>q. Some (a_id q) = i) (\<lambda>q. q\<lparr>a_upvote_count := a_upvote_count q - 1\<rparr>)))
      (\<lambda>d1. integer_range (update_answers s d1 (\<lambda>q. Some (a_id q) = i) (\<lambda>q. q\<lparr>a_upvote_count := a_upvote_count q + 1\<rparr>)))
      = Inr d \<or>
     and_then
      (integer_range (update_answers s d (\<lambda>q. Some (a_id q) = i) (\<lambda>q. q\<lparr>a_upvote_count := a_upvote_count q - 1\<rparr>)))
      (\<lambda>d1. integer_range (update_answers s d1 (\<lambda>q. Some (a_id q) = i) (\<lambda>q. q\<lparr>a_upvote_count := a_upvote_count q + 1\<rparr>)))
      = Inl numeric_value_out_of_range" for i
    by (rule cancel_step[of "\<lambda>d1. update_answers s d1 (\<lambda>q. Some (a_id q) = i) (\<lambda>q. q\<lparr>a_upvote_count := a_upvote_count q + 1\<rparr>)"
            "\<lambda>d. update_answers s d (\<lambda>q. Some (a_id q) = i) (\<lambda>q. q\<lparr>a_upvote_count := a_upvote_count q - 1\<rparr>)"])
       (simp add: ua_cancel)
  have a2: "and_then
      (integer_range (update_answers s d (\<lambda>q. Some (a_id q) = i) (\<lambda>q. q\<lparr>a_downvote_count := a_downvote_count q - 1\<rparr>)))
      (\<lambda>d1. integer_range (update_answers s d1 (\<lambda>q. Some (a_id q) = i) (\<lambda>q. q\<lparr>a_downvote_count := a_downvote_count q + 1\<rparr>)))
      = Inr d \<or>
     and_then
      (integer_range (update_answers s d (\<lambda>q. Some (a_id q) = i) (\<lambda>q. q\<lparr>a_downvote_count := a_downvote_count q - 1\<rparr>)))
      (\<lambda>d1. integer_range (update_answers s d1 (\<lambda>q. Some (a_id q) = i) (\<lambda>q. q\<lparr>a_downvote_count := a_downvote_count q + 1\<rparr>)))
      = Inl numeric_value_out_of_range" for i
    by (rule cancel_step[of "\<lambda>d1. update_answers s d1 (\<lambda>q. Some (a_id q) = i) (\<lambda>q. q\<lparr>a_downvote_count := a_downvote_count q + 1\<rparr>)"
            "\<lambda>d. update_answers s d (\<lambda>q. Some (a_id q) = i) (\<lambda>q. q\<lparr>a_downvote_count := a_downvote_count q - 1\<rparr>)"])
       (simp add: ua_cancel)
  show ?thesis
    using q1 q2 a1 a2 by (simp add: update_vote_counts.simps assms)
qed

lemma trigger_cancels_ok:
  assumes "v_vote_type NEW = v_vote_type OLD" "v_question_id NEW = v_question_id OLD"
    "v_answer_id NEW = v_answer_id OLD" "headroom d"
  shows "update_vote_counts s d (UPDATE OLD NEW) = Inr d"
proof -
  note r = headroom_range[OF assms(4)]
  have hq1: "integer_range (update_questions s d P (\<lambda>q. q\<lparr>q_upvote_count := q_upvote_count q - 1\<rparr>))
      = Inr (update_questions s d P (\<lambda>q. q\<lparr>q_upvote_count := q_upvote_count q - 1\<rparr>))" for P
    by (rule headroom_uq[OF assms(4)]) (simp add: int4_def)
  have hq2: "integer_range (update_questions s d P (\<lambda>q. q\<lparr>q_downvote_count := q_downvote_count q - 1\<rparr>))
      = Inr (update_questions s d P (\<lambda>q. q\<lparr>q_downvote_count := q_downvote_count q - 1\<rparr>))" for P
    by (rule headroom_uq[OF assms(4)]) (simp add: int4_def)
  have ha1: "integer_range (update_answers s d P (\<lambda>q. q\<lparr>a_upvote_count := a_upvote_count q - 1\<rparr>))
      = Inr (update_answers s d P (\<lambda>q. q\<lparr>a_upvote_count := a_upvote_count q - 1\<rparr>))" for P
    by (rule headroom_ua[OF assms(4)]) (simp_all add: int4_def)
  have ha2: "integer_range (update_answers s d P (\<lambda>q. q\<lparr>a_downvote_count := a_downvote_count q - 1\<rparr>))
      = Inr (update_answers s d P (\<lambda>q. q\<lparr>a_downvote_count := a_downvote_count q - 1\<rparr>))" for P
    by (rule headroom_ua[OF assms(4)]) (simp_all add: int4_def)
  have q1: "and_then
      (integer_range (update_questions s d (\<lambda>q. Some (q_id q) = i) (\<lambda>q. q\<lparr>q_upvote_count := q_upvote_count q - 1\<rparr>)))
      (\<lambda>d1. integer_range (update_questions s d1 (\<lambda>q. Some (q_id q) = i) (\<lambda>q. q\<lparr>q_upvote_count := q_upvote_count q + 1\<rparr>)))
      = Inr d" for i
    by (rule cancel_step_ok[of "\<lambda>d1. update_questions s d1 (\<lambda>q. Some (q_id q) = i) (\<lambda>q. q\<lparr>q_upvote_count := q_upvote_count q + 1\<rparr>)"
            "\<lambda>d. update_questions s d (\<lambda>q. Some (q_id q) = i) (\<lambda>q. q\<lparr>q_upvote_count := q_upvote_count q - 1\<rparr>)"])
       (simp_all add: uq_cancel r hq1 hq2)
  have q2: "and_then
      (integer_range (update_questions s d (\<lambda>q. Some (q_id q) = i) (\<lambda>q. q\<lparr>q_downvote_count := q_downvote_count q - 1\<rparr>)))
      (\<lambda>d1. integer_range (update_questions s d1 (\<lambda>q. Some (q_id q) = i) (\<lambda>q. q\<lparr>q_downvote_count := q_downvote_count q + 1\<rparr>)))
      = Inr d" for i
    by (rule cancel_step_ok[of "\<lambda>d1. update_questions s d1 (\<lambda>q. Some (q_id q) = i) (\<lambda>q. q\<lparr>q_downvote_count := q_downvote_count q + 1\<rparr>)"
            "\<lambda>d. update_questions s d (\<lambda>q. Some (q_id q) = i) (\<lambda>q. q\<lparr>q_downvote_count := q_downvote_count q - 1\<rparr>)"])
       (simp_all add: uq_cancel r hq1 hq2)
  have a1: "and_then
      (integer_range (update_answers s d (\<lambda>q. Some (a_id q) = i) (\<lambda>q. q\<lparr>a_upvote_count := a_upvote_count q - 1\<rparr>)))
      (\<lambda>d1. integer_range (update_answers s d1 (\<lambda>q. Some (a_id q) = i) (\<lambda>q. q\<lparr>a_upvote_count := a_upvote_count q + 1\<rparr>)))
      = Inr d" for i
    by (rule cancel_step_ok[of "\<lambda>d1. update_answers s d1 (\<lambda>q. Some (a_id q) = i) (\<lambda>q. q\<lparr>a_upvote_count := a_upvote_count q + 1\<rparr>)"
            "\<lambda>d. update_answers s d (\<lambda>q. Some (a_id q) = i) (\<lambda>q. q\<lparr>a_upvote_count := a_upvote_count q - 1\<rparr>)"])
       (simp_all add: ua_cancel r ha1 ha2)
  have a2: "and_then
      (integer_range (update_answers s d (\<lambda>q. Some (a_id q) = i) (\<lambda>q. q\<lparr>a_downvote_count := a_downvote_count q - 1\<rparr>)))
      (\<lambda>d1. integer_range (update_answers s d1 (\<lambda>q. Some (a_id q) = i) (\<lambda>q. q\<lparr>a_downvote_count := a_downvote_count q + 1\<rparr>)))
      = Inr d" for i
    by (rule cancel_step_ok[of "\<lambda>d1. update_answers s d1 (\<lambda>q. Some (a_id q) = i) (\<lambda>q. q\<lparr>a_downvote_count := a_downvote_count q + 1\<rparr>)"
            "\<lambda>d. update_answers s d (\<lambda>q. Some (a_id q) = i) (\<lambda>q. q\<lparr>a_downvote_count := a_downvote_count q - 1\<rparr>)"])
       (simp_all add: ua_cancel r ha1 ha2)
  show ?thesis
    using q1 q2 a1 a2 by (simp add: update_vote_counts.simps assms)
qed

lemma for_each_row_same:
  assumes "\<And>x acc. x \<in> set xs \<Longrightarrow> trigger acc x = Inr acc \<or> (\<exists>e. trigger acc x = Inl e)"
  shows "for_each_row trigger xs d = Inr d \<or> (\<exists>e. for_each_row trigger xs d = Inl e)"
  using assms
proof (induction xs)
  case Nil
  then show ?case by simp
next
  case (Cons x xs)
  have "trigger d x = Inr d \<or> (\<exists>e. trigger d x = Inl e)" using Cons.prems by simp
  then show ?case
  proof
    assume "trigger d x = Inr d"
    then show ?thesis using Cons.IH Cons.prems by (simp add: and_then_def)
  next
    assume "\<exists>e. trigger d x = Inl e"
    then show ?thesis by (auto simp: and_then_def)
  qed
qed

lemma unchanged_update:
  assumes "list_all (\<lambda>w. v_vote_type (f w) = v_vote_type w \<and> v_question_id (f w) = v_question_id w \<and>
                        v_answer_id (f w) = v_answer_id w)
             (filter (\<lambda>v. P v \<and> row_security s (users_can_update_their_own_votes s v)) (votes d))"
  shows "questions (commit d (update_votes s d P f)) = questions d \<and>
         answers (commit d (update_votes s d P f)) = answers d"
proof -
  let ?sel = "\<lambda>v. P v \<and> row_security s (users_can_update_their_own_votes s v)"
  let ?d1 = "d\<lparr>votes := map (\<lambda>v. if ?sel v then f v else v) (votes d)\<rparr>"
  let ?r = "for_each_row (\<lambda>acc old. update_vote_counts s acc (UPDATE old (f old)))
              (filter ?sel (votes d)) ?d1"
  have "?r = Inr ?d1 \<or> (\<exists>e. ?r = Inl e)"
  proof (rule for_each_row_same)
    fix x acc assume "x \<in> set (filter ?sel (votes d))"
    then have "v_vote_type (f x) = v_vote_type x" "v_question_id (f x) = v_question_id x"
      "v_answer_id (f x) = v_answer_id x"
      using assms by (auto simp: list_all_iff)
    from trigger_cancels[OF this, of s acc]
    show "update_vote_counts s acc (UPDATE x (f x)) = Inr acc \<or>
          (\<exists>e. update_vote_counts s acc (UPDATE x (f x)) = Inl e)" by auto
  qed
  then have "questions (commit d ?r) = questions d \<and> answers (commit d ?r) = answers d"
    by (auto simp: commit_def)
  moreover have "update_votes s d P f = ?r \<or> (\<exists>e. update_votes s d P f = Inl e)"
    by (simp add: update_votes_def Let_def)
  ultimately show ?thesis by (auto simp: commit_def)
qed

subsection \<open>The states of the example\<close>

lemmas eval_defs = empty_db_def commit_def insert_questions_def insert_answers_def insert_votes_def
  delete_votes_def delete_answers_def delete_questions_def update_votes_def update_answers_def
  update_questions_def vote_target_check_def votes_collide_def votes_pkey_def unique_question_vote_def
  unique_answer_vote_def votes_fkeys_def Let_def update_question_accepted_status.simps
  update_vote_counts.simps question_of_def answer_of_def ex_ps_def ex_stmts_def ex_db_def tally_def
  accepted_under_def answers_under_def and_then_def integer_range_def int4_def row_security_def
  authenticated_users_can_create_questions_def users_can_update_their_own_questions_def
  question_authors_and_admins_can_delete_questions_def authenticated_users_can_create_answers_def
  users_can_update_their_own_answers_def answer_authors_and_admins_can_delete_answers_def
  users_can_create_their_own_votes_def users_can_update_their_own_votes_def
  users_can_delete_their_own_votes_def

lemma ex_db_eq:
  "ex_db = \<lparr>profiles = ex_ps,
     questions = [\<lparr>q_id = 10, q_user_id = 1, q_upvote_count = 0, q_downvote_count = 0,
                   answer_count = 1, has_accepted_answer = False\<rparr>],
     answers = [\<lparr>a_id = 20, a_question_id = 10, a_user_id = 2, a_upvote_count = 0,
                  a_downvote_count = 0, is_accepted = False\<rparr>,
                \<lparr>a_id = 21, a_question_id = 10, a_user_id = 3, a_upvote_count = 0,
                  a_downvote_count = 0, is_accepted = False\<rparr>,
                \<lparr>a_id = 22, a_question_id = 10, a_user_id = 1, a_upvote_count = 0,
                  a_downvote_count = 0, is_accepted = False\<rparr>],
     votes = []\<rparr>"
  by (simp add: eval_defs)

lemma ex_voted_eq:
  "ex_voted = \<lparr>profiles = ex_ps,
     questions = [\<lparr>q_id = 10, q_user_id = 1, q_upvote_count = 1, q_downvote_count = 0,
                   answer_count = 1, has_accepted_answer = False\<rparr>],
     answers = [\<lparr>a_id = 20, a_question_id = 10, a_user_id = 2, a_upvote_count = 0,
                  a_downvote_count = 1, is_accepted = False\<rparr>,
                \<lparr>a_id = 21, a_question_id = 10, a_user_id = 3, a_upvote_count = 0,
                  a_downvote_count = 0, is_accepted = False\<rparr>,
                \<lparr>a_id = 22, a_question_id = 10, a_user_id = 1, a_upvote_count = 0,
                  a_downvote_count = 0, is_accepted = False\<rparr>],
     votes = [vote_row 30 1 (Question 10) upvote, vote_row 31 3 (Question 10) upvote,
              vote_row 32 2 (Answer 20) downvote]\<rparr>"
  by (simp add: ex_voted_def ex_db_eq eval_defs)

subsection \<open>A vote cast or withdrawn by its owner\<close>

lemma ua_quiet_simps:
  assumes "\<And>a. is_accepted (f a) = is_accepted a"
  shows "votes (update_answers s d P f) = votes d"
    "profiles (update_answers s d P f) = profiles d"
    "questions (update_answers s d P f) = questions d"
  by (simp_all add: update_answers_quiet[of f, OF assms])



lemma headroom_votes [simp]: "headroom (d\<lparr>votes := vs\<rparr>) = headroom d"
  by (simp add: headroom_def)




subsection \<open>An answer accepted by its author, the owner of the question\<close>



text \<open>
  When the user holds a vote of the other kind on the target, the insert of \<^verbatim>\<open>handleVote\<close>
  collides with it on \<^verbatim>\<open>unique_question_vote\<close>: the handler shows its error toast and
  the kind is not replaced.
\<close>

lemma replace_kind_raises:
  "handleVote ex_voted (Some 1) 10 (Some upvote) (\<lambda>a. None) 33 downvote None
     = (toast_error unique_violation, ex_voted)"
  by (simp add: ex_voted_eq handleVote_def upsert_votes_def eval_defs)

subsection \<open>What a delete of answers leaves alone\<close>

lemma for_each_row_inv:
  assumes "\<And>x acc acc'. trigger acc x = Inr acc' \<Longrightarrow> I acc \<Longrightarrow> I acc'"
    "I d" "for_each_row trigger xs d = Inr d'"
  shows "I d'"
  using assms(2,3)
proof (induction xs arbitrary: d)
  case Nil
  then show ?case by simp
next
  case (Cons x xs)
  then obtain d1 where 1: "trigger d x = Inr d1" "for_each_row trigger xs d1 = Inr d'"
    by (cases "trigger d x") (auto simp: and_then_def)
  have "I d1" using assms(1)[OF 1(1) Cons.prems(1)] .
  then show ?case using Cons.IH 1(2) by blast
qed

lemma integer_range_Inr: "integer_range d = Inr d' \<Longrightarrow> d' = d"
  by (simp add: integer_range_def split: if_splits)

lemma and_then_Inr: "and_then r f = Inr y \<Longrightarrow> \<exists>x. r = Inr x \<and> f x = Inr y"
  by (cases r) (simp_all add: and_then_def)

lemma flags_uq:
  assumes "\<And>q. has_accepted_answer (f q) = has_accepted_answer q"
  shows "map has_accepted_answer (questions (update_questions s d P f))
           = map has_accepted_answer (questions d)"
  by (simp add: comp_def assms)

lemma count_trigger_flags:
  assumes "update_question_answer_count s d ev = Inr d'"
  shows "map has_accepted_answer (questions d') = map has_accepted_answer (questions d)"
proof (cases ev)
  case (INSERT x)
  then show ?thesis using assms by (auto dest!: integer_range_Inr simp: flags_uq)
next
  case (DELETE x)
  then show ?thesis using assms by (auto dest!: integer_range_Inr simp: flags_uq)
next
  case (UPDATE x y)
  then show ?thesis using assms by simp
qed

lemma vote_trigger_delete_flags:
  assumes "update_vote_counts s d (DELETE w) = Inr d'"
  shows "map has_accepted_answer (questions d') = map has_accepted_answer (questions d)"
  using assms
  by (auto simp: update_vote_counts.simps flags_uq ua_quiet_simps
           dest!: integer_range_Inr split: if_splits)

lemma delete_answers_flags:
  "map has_accepted_answer (questions (commit d (delete_answers s d P)))
     = map has_accepted_answer (questions d)"
proof (cases "delete_answers s d P")
  case (Inl e)
  then show ?thesis by (simp add: commit_def)
next
  case (Inr d')
  let ?I = "\<lambda>x. map has_accepted_answer (questions x) = map has_accepted_answer (questions d)"
  let ?sel = "\<lambda>a. P a \<and> row_security s (answer_authors_and_admins_can_delete_answers s d a)"
  let ?casc = "\<lambda>v. list_ex (\<lambda>a. v_answer_id v = Some (a_id a)) (filter ?sel (answers d))"
  let ?d1 = "d\<lparr>answers := filter (\<lambda>a. \<not> ?sel a) (answers d),
               votes := filter (\<lambda>v. \<not> ?casc v) (votes d)\<rparr>"
  from Inr obtain d2 where
    1: "for_each_row (\<lambda>acc old. update_question_answer_count s acc (DELETE old))
          (filter ?sel (answers d)) ?d1 = Inr d2"
    and 2: "for_each_row (\<lambda>acc old. update_vote_counts s acc (DELETE old))
          (filter ?casc (votes d)) d2 = Inr d'"
    unfolding delete_answers_def Let_def by (auto dest!: and_then_Inr)
  have "?I d2"
  proof (rule for_each_row_inv[where I = ?I, OF _ _ 1])
    show "?I ?d1" by simp
  next
    fix x acc acc'
    assume a: "update_question_answer_count s acc (DELETE x) = Inr acc'" and b: "?I acc"
    show "?I acc'" using count_trigger_flags[OF a] b by simp
  qed
  have "?I d'"
  proof (rule for_each_row_inv[where I = ?I, OF _ _ 2])
    show "?I d2" by fact
  next
    fix x acc acc'
    assume a: "update_vote_counts s acc (DELETE x) = Inr acc'" and b: "?I acc"
    show "?I acc'" using vote_trigger_delete_flags[OF a] b by simp
  qed
  then show ?thesis using Inr by (simp add: commit_def)
qed

section \<open>The claims\<close>

text \<open>
  C1. Deleting the only accepted answer of a question does not reset
  \<^verbatim>\<open>has_accepted_answer\<close>. \<^verbatim>\<open>update_accepted_answer_trigger\<close> is declared
  \<^verbatim>\<open>AFTER UPDATE\<close> only and its function tests \<^verbatim>\<open>TG_OP = 'UPDATE'\<close>, so a delete of
  \<^verbatim>\<open>answers\<close> fires \<^verbatim>\<open>update_answer_count_on_delete\<close> and the triggers of the votes
  it cascades to, and none of them writes the flag: in every session and every state, a
  delete of answers leaves \<^verbatim>\<open>has_accepted_answer\<close> of every question as it was. In
  \<open>ex_db\<close> the asker, user 1, accepts the own answer 22 and the flag of question 10
  becomes true; the asker then deletes answer 22: no answer of question 10 is accepted and
  the flag is still true. The same happens in the session of the owner of the tables, which
  no policy restricts, with answer 20.
\<close>

theorem accepted_flag_survives_delete:
  "map has_accepted_answer (questions (commit d (exec s d (DELETE_answer i))))
     = map has_accepted_answer (questions d) \<and>
   map a_id (accepted_under (run ex_db [(authenticated 1, UPDATE_answer_is_accepted 22 True)]) 10)
     = [22] \<and>
   map has_accepted_answer
     (questions (run ex_db [(authenticated 1, UPDATE_answer_is_accepted 22 True)])) = [True] \<and>
   map a_id (answers (run ex_db [(authenticated 1, UPDATE_answer_is_accepted 22 True),
                                  (authenticated 1, DELETE_answer 22)])) = [20, 21] \<and>
   accepted_under (run ex_db [(authenticated 1, UPDATE_answer_is_accepted 22 True),
                              (authenticated 1, DELETE_answer 22)]) 10 = [] \<and>
   map has_accepted_answer
     (questions (run ex_db [(authenticated 1, UPDATE_answer_is_accepted 22 True),
                            (authenticated 1, DELETE_answer 22)])) = [True] \<and>
   accepted_under (run ex_db [(table_owner, UPDATE_answer_is_accepted 20 True),
                              (table_owner, DELETE_answer 20)]) 10 = [] \<and>
   map has_accepted_answer
     (questions (run ex_db [(table_owner, UPDATE_answer_is_accepted 20 True),
                            (table_owner, DELETE_answer 20)])) = [True]"
proof -
  have general: "map has_accepted_answer (questions (commit d (exec s d (DELETE_answer i))))
     = map has_accepted_answer (questions d)"
    by (simp add: delete_answers_flags)
  have example: "map a_id (accepted_under (run ex_db [(authenticated 1, UPDATE_answer_is_accepted 22 True)]) 10)
     = [22] \<and>
   map has_accepted_answer
     (questions (run ex_db [(authenticated 1, UPDATE_answer_is_accepted 22 True)])) = [True] \<and>
   map a_id (answers (run ex_db [(authenticated 1, UPDATE_answer_is_accepted 22 True),
                                  (authenticated 1, DELETE_answer 22)])) = [20, 21] \<and>
   accepted_under (run ex_db [(authenticated 1, UPDATE_answer_is_accepted 22 True),
                              (authenticated 1, DELETE_answer 22)]) 10 = [] \<and>
   map has_accepted_answer
     (questions (run ex_db [(authenticated 1, UPDATE_answer_is_accepted 22 True),
                            (authenticated 1, DELETE_answer 22)])) = [True] \<and>
   accepted_under (run ex_db [(table_owner, UPDATE_answer_is_accepted 20 True),
                              (table_owner, DELETE_answer 20)]) 10 = [] \<and>
   map has_accepted_answer
     (questions (run ex_db [(table_owner, UPDATE_answer_is_accepted 20 True),
                            (table_owner, DELETE_answer 20)])) = [True]"
    by code_simp
  show ?thesis by (rule conjI[OF general example])
qed




text \<open>
  C3. Two answers of one question can both be accepted. The statement of the function that
  clears the siblings runs as the session that accepted, and the policy of \<^verbatim>\<open>answers\<close>
  admits to it the answers of that user only. In \<open>ex_db\<close> user 2 accepts the own answer 20
  and then user 3 the own answer 21, or user 1 the own answer 22: both times answer 20
  stays accepted beside the other.
\<close>

theorem two_accepted_answers:
  "map a_id (accepted_under (run ex_db [(authenticated 2, UPDATE_answer_is_accepted 20 True),
                                        (authenticated 3, UPDATE_answer_is_accepted 21 True)]) 10)
     = [20, 21] \<and>
   map a_id (accepted_under (run ex_db [(authenticated 2, UPDATE_answer_is_accepted 20 True),
                                        (authenticated 1, UPDATE_answer_is_accepted 22 True)]) 10)
     = [20, 22]"
  by code_simp

text \<open>
  C4. The accept transition neither clears every other answer nor always sets the flag of
  the question: both statements of the function run as the session that accepted. In
  \<open>ex_db\<close> user 2 accepts the own answer 20: \<^verbatim>\<open>has_accepted_answer\<close> of question 10,
  which user 1 owns, stays false. User 3 then accepts the own answer 21: answer 20 stays
  accepted, so the first of the two is not unaccepted, and the flag is still false.
\<close>

theorem accept_reaches_own_rows_only:
  "map (\<lambda>a. (a_id a, is_accepted a))
     (answers (run ex_db [(authenticated 2, UPDATE_answer_is_accepted 20 True)]))
     = [(20, True), (21, False), (22, False)] \<and>
   map has_accepted_answer
     (questions (run ex_db [(authenticated 2, UPDATE_answer_is_accepted 20 True)])) = [False] \<and>
   map (\<lambda>a. (a_id a, is_accepted a))
     (answers (run ex_db [(authenticated 2, UPDATE_answer_is_accepted 20 True),
                          (authenticated 3, UPDATE_answer_is_accepted 21 True)]))
     = [(20, True), (21, True), (22, False)] \<and>
   map has_accepted_answer
     (questions (run ex_db [(authenticated 2, UPDATE_answer_is_accepted 20 True),
                            (authenticated 3, UPDATE_answer_is_accepted 21 True)])) = [False]"
  by code_simp

text \<open>
  C5. The counters of a target do not follow its votes: the statements of
  \<^verbatim>\<open>update_vote_counts\<close> run as the voter, and the policies of \<^verbatim>\<open>questions\<close> and
  \<^verbatim>\<open>answers\<close> admit a row to its owner only. In \<open>ex_db\<close> user 3 upvotes question 10 of
  user 1 with \<^verbatim>\<open>handleVote\<close>: the handler completes, the vote is stored and both counters
  of the question stay 0. When user 3 then changes the vote to a downvote, the counters
  again stay as they are. In \<open>ex_voted\<close> question 10 has two upvotes and
  \<^verbatim>\<open>upvote_count = 1\<close>, the vote of its owner.
\<close>

theorem vote_of_another_user_uncounted:
  "fst (handleVote ex_db (Some 3) 10 None (\<lambda>a. None) 31 upvote None) = completed \<and>
   votes (snd (handleVote ex_db (Some 3) 10 None (\<lambda>a. None) 31 upvote None))
     = [vote_row 31 3 (Question 10) upvote] \<and>
   counters (snd (handleVote ex_db (Some 3) 10 None (\<lambda>a. None) 31 upvote None)) (Question 10)
     = Some (0, 0) \<and>
   votes (run ex_db [(authenticated 3, INSERT_vote (vote_row 31 3 (Question 10) upvote)),
                     (authenticated 3, UPDATE_vote_type 31 downvote)])
     = [vote_row 31 3 (Question 10) downvote] \<and>
   counters (run ex_db [(authenticated 3, INSERT_vote (vote_row 31 3 (Question 10) upvote)),
                        (authenticated 3, UPDATE_vote_type 31 downvote)]) (Question 10)
     = Some (0, 0) \<and>
   tally (votes ex_voted) (Question 10) upvote = 2 \<and>
   counters ex_voted (Question 10) = Some (1, 0)"
  by (simp add: ex_db_eq ex_voted_eq handleVote_def upsert_votes_def eval_defs)




text \<open>
  C7. Unaccepting the only accepted answer of a question can leave
  \<^verbatim>\<open>has_accepted_answer\<close> true: the statement that resets the flag runs as the session
  that unaccepted, and the policy of \<^verbatim>\<open>questions\<close> admits the question to its owner
  only. In \<open>ex_db\<close> user 2 accepts the own answer 20, the asker accepts the own answer 22,
  which sets the flag, and unaccepts it again, which leaves the flag as answer 20 is still
  accepted. Then answer 20 is the only accepted answer of question 10; user 2 unaccepts it,
  and no answer is accepted while the flag stays true.
\<close>

theorem unaccept_leaves_flag:
  "map a_id (accepted_under (run ex_db [(authenticated 2, UPDATE_answer_is_accepted 20 True),
                                        (authenticated 1, UPDATE_answer_is_accepted 22 True),
                                        (authenticated 1, UPDATE_answer_is_accepted 22 False)]) 10)
     = [20] \<and>
   map has_accepted_answer
     (questions (run ex_db [(authenticated 2, UPDATE_answer_is_accepted 20 True),
                            (authenticated 1, UPDATE_answer_is_accepted 22 True),
                            (authenticated 1, UPDATE_answer_is_accepted 22 False)])) = [True] \<and>
   accepted_under (run ex_db [(authenticated 2, UPDATE_answer_is_accepted 20 True),
                              (authenticated 1, UPDATE_answer_is_accepted 22 True),
                              (authenticated 1, UPDATE_answer_is_accepted 22 False),
                              (authenticated 2, UPDATE_answer_is_accepted 20 False)]) 10 = [] \<and>
   map has_accepted_answer
     (questions (run ex_db [(authenticated 2, UPDATE_answer_is_accepted 20 True),
                            (authenticated 1, UPDATE_answer_is_accepted 22 True),
                            (authenticated 1, UPDATE_answer_is_accepted 22 False),
                            (authenticated 2, UPDATE_answer_is_accepted 20 False)])) = [True]"
  by code_simp

text \<open>
  C8. \<^verbatim>\<open>answer_count\<close> does not follow the answers of a question: the statement of
  \<^verbatim>\<open>update_question_answer_count\<close> runs as the session that inserts or deletes the
  answer, and the policy of \<^verbatim>\<open>questions\<close> admits the question to its owner only. In
  \<open>ex_asked\<close> user 2 answers question 10 of user 1 with \<^verbatim>\<open>handleSubmitAnswer\<close>: the handler
  completes, the answer is stored and \<^verbatim>\<open>answer_count\<close> stays 0. After three answers by
  users 2 and 3 and the delete of one of them by its author, two answers are live and
  \<^verbatim>\<open>answer_count\<close> is 0. When user 3, an admin, asks question 11, user 2 answers it and
  user 3 deletes that answer, \<^verbatim>\<open>answer_count\<close> is -1.
\<close>

theorem answer_of_another_user_uncounted:
  "fst (handleSubmitAnswer ex_asked (Some 2) 10 True 20) = completed \<and>
   map a_id (answers_under (snd (handleSubmitAnswer ex_asked (Some 2) 10 True 20)) 10) = [20] \<and>
   map answer_count (questions (snd (handleSubmitAnswer ex_asked (Some 2) 10 True 20))) = [0] \<and>
   map a_id (answers_under (run ex_asked [(authenticated 2, INSERT_answer 20 10 2),
                                          (authenticated 3, INSERT_answer 21 10 3),
                                          (authenticated 2, INSERT_answer 23 10 2),
                                          (authenticated 2, DELETE_answer 20)]) 10) = [21, 23] \<and>
   map answer_count (questions (run ex_asked [(authenticated 2, INSERT_answer 20 10 2),
                                              (authenticated 3, INSERT_answer 21 10 3),
                                              (authenticated 2, INSERT_answer 23 10 2),
                                              (authenticated 2, DELETE_answer 20)])) = [0] \<and>
   answers (run (empty_db ex_ps) [(authenticated 3, INSERT_question 11 3),
                                  (authenticated 2, INSERT_answer 24 11 2),
                                  (authenticated 3, DELETE_answer 24)]) = [] \<and>
   map answer_count (questions (run (empty_db ex_ps) [(authenticated 3, INSERT_question 11 3),
                                                      (authenticated 2, INSERT_answer 24 11 2),
                                                      (authenticated 3, DELETE_answer 24)])) = [- 1]"
  by code_simp

text \<open>
  C9. A vote counter can fall below zero. In \<open>ex_db\<close> user 3 upvotes question 10 of user
  1: the increment of the trigger runs as user 3, the policy of \<^verbatim>\<open>questions\<close> does not
  admit the row, and \<^verbatim>\<open>upvote_count\<close> stays 0. The vote is then deleted in the session
  of the owner of the tables, which row-level security does not restrict: the decrement of
  the trigger reaches the row, and \<^verbatim>\<open>upvote_count\<close> is -1 with no vote left.
\<close>

theorem counter_below_zero:
  "counters (run ex_db [(authenticated 3, INSERT_vote (vote_row 31 3 (Question 10) upvote))])
     (Question 10) = Some (0, 0) \<and>
   votes (run ex_db [(authenticated 3, INSERT_vote (vote_row 31 3 (Question 10) upvote)),
                     (table_owner, DELETE_vote 3 (Question 10))]) = [] \<and>
   counters (run ex_db [(authenticated 3, INSERT_vote (vote_row 31 3 (Question 10) upvote)),
                        (table_owner, DELETE_vote 3 (Question 10))]) (Question 10)
     = Some (- 1, 0)"
  by code_simp

text \<open>
  C10. \<^verbatim>\<open>update_vote_counts_trigger\<close> fires for every row an update of \<^verbatim>\<open>votes\<close> writes.
  When the update leaves \<^verbatim>\<open>vote_type\<close>, \<^verbatim>\<open>question_id\<close> and \<^verbatim>\<open>answer_id\<close> of the rows it
  writes as they were, then in every session each firing of the trigger leaves every table
  as it finds it (its decrement and its increment hit the same counter of the same row, and
  the policy admits that row for both or for neither), unless the decrement leaves the range
  of \<^verbatim>\<open>INTEGER\<close> and raises, which no counter with room on both sides does; and the
  statement, raising or not, leaves \<^verbatim>\<open>questions\<close> and \<^verbatim>\<open>answers\<close>, hence all counters,
  unchanged.
\<close>

theorem unchanged_vote_update_cancels:
  assumes "\<forall>w\<in>set (votes d). P w \<longrightarrow>
             v_vote_type (f w) = v_vote_type w \<and> v_question_id (f w) = v_question_id w \<and>
             v_answer_id (f w) = v_answer_id w"
  shows "(\<forall>w\<in>set (votes d). P w \<longrightarrow>
            (update_vote_counts s d' (UPDATE w (f w)) = Inr d' \<or>
             update_vote_counts s d' (UPDATE w (f w)) = Inl numeric_value_out_of_range) \<and>
            (headroom d' \<longrightarrow> update_vote_counts s d' (UPDATE w (f w)) = Inr d')) \<and>
         questions (commit d (update_votes s d P f)) = questions d \<and>
         answers (commit d (update_votes s d P f)) = answers d"
proof -
  have "(update_vote_counts s d' (UPDATE w (f w)) = Inr d' \<or>
         update_vote_counts s d' (UPDATE w (f w)) = Inl numeric_value_out_of_range) \<and>
        (headroom d' \<longrightarrow> update_vote_counts s d' (UPDATE w (f w)) = Inr d')"
    if "w \<in> set (votes d)" "P w" for w
  proof -
    have e: "v_vote_type (f w) = v_vote_type w" "v_question_id (f w) = v_question_id w"
      "v_answer_id (f w) = v_answer_id w"
      using assms that by simp_all
    show ?thesis
      using trigger_cancels[OF e, of s d'] trigger_cancels_ok[OF e, of d' s] by blast
  qed
  moreover have "questions (commit d (update_votes s d P f)) = questions d \<and>
         answers (commit d (update_votes s d P f)) = answers d"
    using assms by (intro unchanged_update) (simp add: list_all_iff)
  ultimately show ?thesis by blast
qed

theorem unchanged_vote_update_cancels_witness:
  "update_vote_counts (authenticated 1) ex_voted
     (UPDATE (vote_row 30 1 (Question 10) upvote) (vote_row 30 1 (Question 10) upvote))
     = Inr ex_voted \<and>
   (\<exists>d'. update_votes (authenticated 1) ex_voted (\<lambda>w. v_id w = 30)
            (\<lambda>w. w\<lparr>v_vote_type := v_vote_type w\<rparr>) = Inr d') \<and>
   questions (commit ex_voted
     (update_votes (authenticated 1) ex_voted (\<lambda>w. v_id w = 30)
        (\<lambda>w. w\<lparr>v_vote_type := v_vote_type w\<rparr>))) = questions ex_voted \<and>
   answers (commit ex_voted
     (update_votes (authenticated 1) ex_voted (\<lambda>w. v_id w = 30)
        (\<lambda>w. w\<lparr>v_vote_type := v_vote_type w\<rparr>))) = answers ex_voted"
proof -
  note T = unchanged_vote_update_cancels[of ex_voted "\<lambda>w. v_id w = 30"
             "\<lambda>w. w\<lparr>v_vote_type := v_vote_type w\<rparr>" "authenticated 1" ex_voted]
  have h: "\<forall>w\<in>set (votes ex_voted). v_id w = 30 \<longrightarrow>
             v_vote_type (w\<lparr>v_vote_type := v_vote_type w\<rparr>) = v_vote_type w \<and>
             v_question_id (w\<lparr>v_vote_type := v_vote_type w\<rparr>) = v_question_id w \<and>
             v_answer_id (w\<lparr>v_vote_type := v_vote_type w\<rparr>) = v_answer_id w"
    by simp
  have v: "vote_row 30 1 (Question 10) upvote \<in> set (votes ex_voted)"
    "v_id (vote_row 30 1 (Question 10) upvote) = 30"
    "(vote_row 30 1 (Question 10) upvote)\<lparr>v_vote_type := v_vote_type (vote_row 30 1 (Question 10) upvote)\<rparr>
       = vote_row 30 1 (Question 10) upvote"
    by (simp_all add: ex_voted_eq)
  have hr: "headroom ex_voted"
    by (simp add: ex_voted_eq headroom_def int4_def)
  have 1: "update_vote_counts (authenticated 1) ex_voted
     (UPDATE (vote_row 30 1 (Question 10) upvote) (vote_row 30 1 (Question 10) upvote)) = Inr ex_voted"
    using conjunct1[OF T[OF h], rule_format, OF v(1) v(2)] hr by (simp only: v(3))
  have 2: "\<exists>d'. update_votes (authenticated 1) ex_voted (\<lambda>w. v_id w = 30)
                   (\<lambda>w. w\<lparr>v_vote_type := v_vote_type w\<rparr>) = Inr d'"
    by (simp add: ex_voted_eq eval_defs)
  show ?thesis
    using 1 2 conjunct2[OF T[OF h]] by blast
qed

end
